(* ===== verification/Prelude.thy ===== *)
theory Prelude
  imports Main "HOL-Library.Multiset"
begin

text \<open>
  Shared vocabulary of the development: the JavaScript values the component
  \<open>CsvParserExporter\<close> (src/src/modules/CsvParserExporter/CsvParserExporter.jsx)
  manipulates, the two JavaScript operators whose semantics matter to it
  (strict equality \<open>===\<close> on Numbers and the nullish-coalescing read
  \<open>obj.key ?? d\<close>), array indexing past the end, and the generic list lemmas
  the component theories share.  The collection \<open>js_simps\<close> gathers the
  evaluation rules of these operators; component proofs add it to \<open>simp\<close>.
\<close>

named_theorems js_simps "evaluation rules of the JavaScript operators"

subsection \<open>JavaScript values\<close>

text \<open>
  A slot that holds either a string or \<open>undefined\<close>: the values read from
  \<open>values[1]\<close>, \<open>values[2]\<close>, \<open>values[3]\<close> and stored as object properties.
\<close>

datatype jsval = Str string | Undefined

text \<open>
  The Numbers that \<open>parseInt\<close> can return: \<open>NaN\<close>, or an integer.  The sign of
  zero is not kept: \<open>-0 === 0\<close> and \<open>-0 - 0 = 0\<close> in JavaScript, and the
  only uses of the number are \<open>===\<close>, subtraction and printing.
\<close>

datatype jsnum = NaN | Num int

text \<open>Strict equality \<open>a === b\<close> on Numbers: \<open>NaN\<close> equals nothing, itself included.\<close>

fun js_strict_eq :: "jsnum \<Rightarrow> jsnum \<Rightarrow> bool" where
  "js_strict_eq (Num a) (Num b) = (a = b)"
| "js_strict_eq _ _ = False"

text \<open>Subtraction \<open>a - b\<close> on Numbers: \<open>NaN\<close> is absorbing.\<close>

fun js_sub :: "jsnum \<Rightarrow> jsnum \<Rightarrow> jsnum" where
  "js_sub (Num a) (Num b) = Num (a - b)"
| "js_sub _ _ = NaN"

text \<open>
  Array indexing \<open>xs[i]\<close> on an array of strings: past the end it is
  \<open>undefined\<close>, it does not raise.
\<close>

definition js_index :: "string list \<Rightarrow> nat \<Rightarrow> jsval" where
  "js_index xs i = (if i < length xs then Str (xs ! i) else Undefined)"

text \<open>
  The property read \<open>obj.key ?? d\<close>, with the object's properties as a map:
  an absent property and a property holding \<open>undefined\<close> both give \<open>d\<close>.
\<close>

fun nullish :: "jsval option \<Rightarrow> string \<Rightarrow> string" where
  "nullish (Some (Str s)) d = s"
| "nullish (Some Undefined) d = d"
| "nullish None d = d"

type_synonym props = "string \<rightharpoonup> jsval"

subsection \<open>Lemmas on the operators\<close>

lemma js_strict_eq_iff [js_simps]:
  "js_strict_eq a b \<longleftrightarrow> a \<noteq> NaN \<and> a = b"
  by (cases a; cases b) auto

lemma js_strict_eq_NaN [js_simps]:
  "\<not> js_strict_eq NaN b" "\<not> js_strict_eq a NaN"
  by (cases b; simp) (cases a; simp)

lemma js_index_simps [js_simps]:
  "js_index [] i = Undefined"
  "js_index (x # xs) 0 = Str x"
  "js_index (x # xs) (Suc i) = js_index xs i"
  by (simp_all add: js_index_def)

lemma nullish_Str_iff:
  "nullish v d = s \<longleftrightarrow> v = Some (Str s) \<or> ((v = None \<or> v = Some Undefined) \<and> s = d)"
  by (cases "(v, d)" rule: nullish.cases) auto

subsection \<open>Generic list lemmas\<close>

lemma map_list_update_keep:
  "i < length xs \<Longrightarrow> f v = f (xs ! i) \<Longrightarrow> map f (xs[i := v]) = map f xs"
  by (metis list_update_id map_update)

lemma mset_list_update_eq:
  "i < length xs \<Longrightarrow> mset (xs[i := v]) = add_mset v (mset xs - {#xs ! i#})"
  by (simp add: mset_update)

end
