(* ===== verification/JsString.thy ===== *)
theory JsString
  imports Prelude
begin

text \<open>
  The three String built-ins that the record decoder of \<open>processFile\<close>
  (CsvParserExporter.jsx, lines 46--49) calls, modelled after their
  ECMAScript definitions: \<open>s.split('/')\<close>, \<open>s.slice(-1)\<close> and
  \<open>parseInt(s)\<close> with no radix.  Characters are the 8-bit \<open>char\<close>s of HOL;
  JavaScript strings are UTF-16 code units, so the model is exact on ASCII
  input, which is what the input grammar (\<open><digits><letter>/x/y/z\<close>) allows.
\<close>

subsection \<open>String.prototype.split with a one-character separator\<close>

text \<open>
  \<open>s.split(d)\<close> cuts \<open>s\<close> at every occurrence of \<open>d\<close>; the empty string gives
  one empty piece, and adjacent separators give empty pieces.
\<close>

fun split_on :: "char \<Rightarrow> string \<Rightarrow> string list" where
  "split_on d [] = [[]]"
| "split_on d (c # cs) =
     (if c = d then [] # split_on d cs
      else (case split_on d cs of w # ws \<Rightarrow> (c # w) # ws | [] \<Rightarrow> [[c]]))"

text \<open>\<open>Array.prototype.join(d)\<close>, the inverse of \<open>split\<close>.\<close>

fun join_on :: "char \<Rightarrow> string list \<Rightarrow> string" where
  "join_on d [] = []"
| "join_on d [w] = w"
| "join_on d (w # ws) = w @ d # join_on d ws"

subsection \<open>String.prototype.slice(-1)\<close>

text \<open>
  \<open>s.slice(-1)\<close> starts at \<open>max(len - 1, 0)\<close>: the last character, or the
  empty string when \<open>s\<close> is empty.
\<close>

definition slice_last :: "string \<Rightarrow> string" where
  "slice_last s = drop (length s - 1) s"

subsection \<open>parseInt with no radix\<close>

text \<open>
  \<open>parseInt(s)\<close> (ECMAScript 19.2.5): strip leading white space; take one
  optional sign; with the radix left out, a prefix \<open>0x\<close> or \<open>0X\<close> switches to
  radix 16 and is removed, otherwise the radix is 10; then take the longest
  prefix of digits of that radix.  No digit gives \<open>NaN\<close>; otherwise the
  signed value of the digits.  White space here is the ASCII part of the
  WhiteSpace and LineTerminator classes.
\<close>

definition js_space :: "char \<Rightarrow> bool" where
  "js_space c \<longleftrightarrow> c \<in> set [CHR 0x09, CHR 0x0A, CHR 0x0B, CHR 0x0C, CHR 0x0D, CHR 0x20]"

text \<open>The value of a character as a digit of radix up to 36, if it is one.\<close>

definition digit_value :: "char \<Rightarrow> nat option" where
  "digit_value c =
     (let n = of_char c :: nat in
      if 48 \<le> n \<and> n \<le> 57 then Some (n - 48)
      else if 97 \<le> n \<and> n \<le> 122 then Some (n - 87)
      else if 65 \<le> n \<and> n \<le> 90 then Some (n - 55)
      else None)"

definition radix_digit :: "nat \<Rightarrow> char \<Rightarrow> nat option" where
  "radix_digit r c =
     (case digit_value c of Some v \<Rightarrow> if v < r then Some v else None | None \<Rightarrow> None)"

definition is_radix_digit :: "nat \<Rightarrow> char \<Rightarrow> bool" where
  "is_radix_digit r c \<longleftrightarrow> radix_digit r c \<noteq> None"

text \<open>The mathematical value of a digit string, most significant digit first.\<close>

definition digits_value :: "nat \<Rightarrow> string \<Rightarrow> nat" where
  "digits_value r ds =
     foldl (\<lambda>acc c. case radix_digit r c of Some v \<Rightarrow> acc * r + v | None \<Rightarrow> acc) 0 ds"

fun take_sign :: "string \<Rightarrow> int \<times> string" where
  "take_sign [] = (1, [])"
| "take_sign (c # cs) =
     (if c = CHR ''-'' then (-1, cs) else if c = CHR ''+'' then (1, cs) else (1, c # cs))"

fun take_radix :: "string \<Rightarrow> nat \<times> string" where
  "take_radix (c # x # cs) =
     (if c = CHR ''0'' \<and> (x = CHR ''x'' \<or> x = CHR ''X'') then (16, cs) else (10, c # x # cs))"
| "take_radix cs = (10, cs)"

definition parse_int :: "string \<Rightarrow> jsnum" where
  "parse_int s =
     (let (sign, s1) = take_sign (dropWhile js_space s);
          (r, s2) = take_radix s1;
          z = takeWhile (is_radix_digit r) s2
      in if z = [] then NaN else Num (sign * int (digits_value r z)))"

subsection \<open>Lemmas\<close>

lemma split_on_not_Nil: "split_on d s \<noteq> []"
  by (induction s) (auto split: list.splits)

lemma split_on_append_sep:
  "d \<notin> set w \<Longrightarrow> split_on d (w @ d # s) = w # split_on d s"
  by (induction w) auto

lemma split_on_no_sep: "d \<notin> set w \<Longrightarrow> split_on d w = [w]"
  by (induction w) auto

lemma split_join_on:
  "ws \<noteq> [] \<Longrightarrow> \<forall>w\<in>set ws. d \<notin> set w \<Longrightarrow> split_on d (join_on d ws) = ws"
proof (induction d ws rule: join_on.induct)
  case (3 d w v vs)
  then show ?case by (simp add: split_on_append_sep)
qed (auto simp: split_on_no_sep)

lemma length_split_on: "length (split_on d s) = Suc (count_list s d)"
proof (induction s)
  case (Cons c cs)
  then show ?case using split_on_not_Nil[of d cs] by (auto split: list.splits)
qed simp

lemma slice_last_snoc: "slice_last (s @ [c]) = [c]"
  by (simp add: slice_last_def)

lemma dec_digit_iff: "is_radix_digit 10 c \<longleftrightarrow> 48 \<le> (of_char c :: nat) \<and> of_char c \<le> (57::nat)"
  by (auto simp: is_radix_digit_def radix_digit_def digit_value_def Let_def split: if_splits)

lemma js_space_code: "js_space c \<Longrightarrow> (of_char c :: nat) \<in> {9, 10, 11, 12, 13, 32}"
  by (auto simp: js_space_def)

lemma dec_digit_not_space: "is_radix_digit 10 c \<Longrightarrow> \<not> js_space c"
  using js_space_code dec_digit_iff by fastforce

lemma dec_digit_not_sign: "is_radix_digit 10 c \<Longrightarrow> c \<noteq> CHR ''-'' \<and> c \<noteq> CHR ''+''"
  by (auto simp: dec_digit_iff)

lemma dec_digit_not_x: "is_radix_digit 10 c \<Longrightarrow> c \<noteq> CHR ''x'' \<and> c \<noteq> CHR ''X''"
  by (auto simp: dec_digit_iff)

lemma take_radix_dec:
  "s \<noteq> [] \<Longrightarrow> take 2 s \<noteq> ''0x'' \<Longrightarrow> take 2 s \<noteq> ''0X'' \<Longrightarrow> take_radix s = (10, s)"
  by (cases s rule: take_radix.cases) auto

lemma parse_int_digits:
  assumes ds: "ds \<noteq> []" "\<forall>c\<in>set ds. is_radix_digit 10 c"
    and rest: "rest = [] \<or> \<not> is_radix_digit 10 (hd rest)"
    and nohex: "take 2 (ds @ rest) \<noteq> ''0x''" "take 2 (ds @ rest) \<noteq> ''0X''"
  shows "parse_int (ds @ rest) = Num (int (digits_value 10 ds))"
proof -
  obtain c cs where c: "ds = c # cs" using ds(1) by (cases ds) auto
  have dig: "is_radix_digit 10 c" using ds c by simp
  have "dropWhile js_space (ds @ rest) = ds @ rest"
    using c dig dec_digit_not_space by simp
  moreover have "take_sign (ds @ rest) = (1, ds @ rest)"
    using c dig dec_digit_not_sign by simp
  moreover have "take_radix (ds @ rest) = (10, ds @ rest)"
    using take_radix_dec[OF _ nohex] c by simp
  moreover have "takeWhile (is_radix_digit 10) (ds @ rest) = ds"
    using ds(2) rest by (cases rest) (auto simp: takeWhile_append2)
  ultimately show ?thesis using ds(1) by (simp add: parse_int_def)
qed

end
