(* ===== verification/Decoder.thy ===== *)
theory Decoder
  imports JsString
begin

text \<open>
  The record decoder: the first five statements of the \<open>forEach\<close> body of
  \<open>processFile\<close> (CsvParserExporter.jsx, lines 46--52).  A line is one row of
  the CSV tokenizer (Papa.parse), a list of cells; its first cell holds
  \<open>id+tag/x/y/z\<close>.  Reading \<open>line[0]\<close> of an empty row gives \<open>undefined\<close>, and
  \<open>undefined.split\<close> throws a TypeError: the one error of the decoder.
  Also here: the decoder the spec describes (leading digit run as the
  identifier, a hard error without one), against which the code is compared.
\<close>

datatype js_error = TypeError string

record fragment =
  frag_number :: jsnum
  frag_type :: string
  frag_x :: jsval
  frag_y :: jsval
  frag_z :: jsval

definition decode_line :: "string list \<Rightarrow> js_error + fragment" where
  "decode_line line =
     (case line of
        [] \<Rightarrow> Inl (TypeError ''Cannot read properties of undefined (reading 'split')'')
      | cell # _ \<Rightarrow>
          (let values = split_on CHR ''/'' cell
           in Inr \<lparr>frag_number = parse_int (hd values),
                   frag_type = slice_last (hd values),
                   frag_x = js_index values 1,
                   frag_y = js_index values 2,
                   frag_z = js_index values 3\<rparr>))"

text \<open>
  The spec's decoder (spec.md, 4.1): the identifier is the maximal leading
  run of decimal digits of the first field, and no digit is an error.
\<close>

definition spec_identifier :: "string \<Rightarrow> int option" where
  "spec_identifier s =
     (let z = takeWhile (is_radix_digit 10) s
      in if z = [] then None else Some (int (digits_value 10 z)))"

subsection \<open>Lemmas\<close>

lemma decode_line_Nil: "\<exists>msg. decode_line [] = Inl (TypeError msg)"
  by (simp add: decode_line_def)

lemma decode_line_Cons:
  "decode_line (cell # rest) =
     Inr \<lparr>frag_number = parse_int (hd (split_on CHR ''/'' cell)),
          frag_type = slice_last (hd (split_on CHR ''/'' cell)),
          frag_x = js_index (split_on CHR ''/'' cell) 1,
          frag_y = js_index (split_on CHR ''/'' cell) 2,
          frag_z = js_index (split_on CHR ''/'' cell) 3\<rparr>"
  by (simp add: decode_line_def Let_def)

lemma decode_line_Inr_iff: "(\<exists>f. decode_line line = Inr f) \<longleftrightarrow> line \<noteq> []"
  by (cases line) (simp_all add: decode_line_def Let_def)

lemma take2_digits_snoc:
  assumes "\<forall>c\<in>set ds. is_radix_digit 10 c" "ds \<noteq> []"
    and "\<not> (ds = ''0'' \<and> (t = CHR ''x'' \<or> t = CHR ''X''))"
  shows "take 2 (ds @ [t]) \<noteq> ''0x'' \<and> take 2 (ds @ [t]) \<noteq> ''0X''"
proof (cases ds)
  case (Cons c cs)
  show ?thesis
  proof (cases cs)
    case Nil
    with Cons assms(3) show ?thesis by auto
  next
    case (Cons c' cs')
    with \<open>ds = c # cs\<close> assms(1) have "is_radix_digit 10 c'" by simp
    with \<open>ds = c # cs\<close> Cons show ?thesis by (auto dest: dec_digit_not_x)
  qed
qed (use assms in simp)


text \<open>
  C8. Decoding a record of the input grammar \<open><digits><tag>/x/y/z\<close>: the
  identifier is the decimal value of the digits, the corner tag is the last
  character of the first field, and x, y, z are the next three fields
  verbatim.  The hypotheses exclude the one grammatical input on which the
  code departs from this, a first field \<open>0x\<close> or \<open>0X\<close>.
\<close>

lemma decode_line_record:
  assumes ds: "ds \<noteq> []" "\<forall>c\<in>set ds. is_radix_digit 10 c"
    and tag: "\<not> is_radix_digit 10 t" "t \<noteq> CHR ''/''"
    and nohex: "\<not> (ds = ''0'' \<and> (t = CHR ''x'' \<or> t = CHR ''X''))"
    and xyz: "CHR ''/'' \<notin> set x" "CHR ''/'' \<notin> set y" "CHR ''/'' \<notin> set z"
  shows "decode_line (join_on CHR ''/'' [ds @ [t], x, y, z] # rest) =
           Inr \<lparr>frag_number = Num (int (digits_value 10 ds)), frag_type = [t],
                frag_x = Str x, frag_y = Str y, frag_z = Str z\<rparr>"
proof -
  have slash: "CHR ''/'' \<notin> set (ds @ [t])"
    using ds(2) tag(2) by (auto simp: dec_digit_iff)
  have split: "split_on CHR ''/'' (join_on CHR ''/'' [ds @ [t], x, y, z]) = [ds @ [t], x, y, z]"
    using slash xyz by (intro split_join_on) auto
  have "parse_int (ds @ [t]) = Num (int (digits_value 10 ds))"
    using ds tag(1) take2_digits_snoc[OF ds(2,1) nohex] by (intro parse_int_digits) auto
  then show ?thesis
    unfolding decode_line_Cons split by (simp add: slice_last_snoc js_index_def)
qed

lemma decode_line_record_witness:
  "decode_line [''12a/10/20/30''] =
     Inr \<lparr>frag_number = Num 12, frag_type = ''a'', frag_x = Str ''10'', frag_y = Str ''20'', frag_z = Str ''30''\<rparr>"
proof -
  have "decode_line (join_on CHR ''/'' [''12'' @ [CHR ''a''], ''10'', ''20'', ''30''] # []) =
           Inr \<lparr>frag_number = Num (int (digits_value 10 ''12'')), frag_type = [CHR ''a''],
                frag_x = Str ''10'', frag_y = Str ''20'', frag_z = Str ''30''\<rparr>"
    by (rule decode_line_record) (simp_all add: dec_digit_iff)
  then show ?thesis by (simp add: digits_value_def radix_digit_def digit_value_def)
qed

text \<open>
  C9. The code reads the identifier with \<open>parseInt\<close>, which takes a first
  field starting \<open>0x\<close> or \<open>0X\<close> as hexadecimal: after the prefix it reads
  the longest run of hexadecimal digits, and is NaN when there is none,
  whereas the spec's leading-digit-run decoder gives 0 for every such field.
\<close>

theorem parse_int_hex_prefix:
  assumes x: "x = CHR ''x'' \<or> x = CHR ''X''"
    and h: "\<forall>c\<in>set h. is_radix_digit 16 c"
    and rest: "rest = [] \<or> \<not> is_radix_digit 16 (hd rest)"
  shows "parse_int (CHR ''0'' # x # h @ rest) = (if h = [] then NaN else Num (int (digits_value 16 h))) \<and>
         spec_identifier (CHR ''0'' # x # h @ rest) = Some 0"
proof
  have zero: "is_radix_digit 10 (CHR ''0'')" by (simp add: dec_digit_iff)
  have "dropWhile js_space (CHR ''0'' # x # h @ rest) = CHR ''0'' # x # h @ rest"
    using dec_digit_not_space[OF zero] by simp
  moreover have "take_sign (CHR ''0'' # x # h @ rest) = (1, CHR ''0'' # x # h @ rest)"
    using dec_digit_not_sign[OF zero] by simp
  moreover have "take_radix (CHR ''0'' # x # h @ rest) = (16, h @ rest)"
    using x by auto
  moreover have "takeWhile (is_radix_digit 16) (h @ rest) = h"
    using h rest by (cases rest) (auto simp: takeWhile_append2)
  ultimately show "parse_int (CHR ''0'' # x # h @ rest) = (if h = [] then NaN else Num (int (digits_value 16 h)))"
    by (simp add: parse_int_def)
next
  have "\<not> is_radix_digit 10 x" using x by (auto simp: dec_digit_iff)
  then have "takeWhile (is_radix_digit 10) (CHR ''0'' # x # h @ rest) = ''0''"
    by (simp add: dec_digit_iff)
  then show "spec_identifier (CHR ''0'' # x # h @ rest) = Some 0"
    by (simp add: spec_identifier_def digits_value_def radix_digit_def digit_value_def)
qed

lemma parse_int_hex_prefix_witness:
  "parse_int ''0x1a'' = Num 26 \<and> spec_identifier ''0x1a'' = Some 0"
proof -
  have "parse_int (CHR ''0'' # CHR ''x'' # ''1a'' @ []) = (if ''1a'' = [] then NaN else Num (int (digits_value 16 ''1a''))) \<and>
        spec_identifier (CHR ''0'' # CHR ''x'' # ''1a'' @ []) = Some 0"
    by (rule parse_int_hex_prefix) (simp_all add: is_radix_digit_def radix_digit_def digit_value_def)
  then show ?thesis by (simp add: digits_value_def radix_digit_def digit_value_def)
qed

end
