(* ===== verification/Aggregator.thy ===== *)
theory Aggregator
  imports Decoder
begin

text \<open>
  The row aggregator: the \<open>result\<close> array of \<open>processFile\<close> and the
  \<open>forEach\<close> loop that fills it (CsvParserExporter.jsx, lines 43--64).  An
  entry is the object \<open>{ number, aa, ba, ... }\<close>: its \<open>number\<close> and its other
  properties as a map.  \<open>result.find\<close> returns the first entry whose number is
  \<open>===\<close> the fragment's; the model returns its index, and the assignments
  \<open>entry[...] = ...\<close> through the alias become an update of \<open>result\<close> at that
  index.  A missing entry is pushed at the end and then written.
  The abstract specification is a finite map from identifiers to property
  maps (\<open>spec_step\<close>, the design of spec.md 4.2 and 9); \<open>table_of\<close> reads it
  off the array the way \<open>find\<close> does.
\<close>

record entry =
  number :: jsnum
  props :: props

definition new_entry :: "jsnum \<Rightarrow> entry" where
  "new_entry n = \<lparr>number = n, props = Map.empty\<rparr>"

fun find_entry :: "jsnum \<Rightarrow> entry list \<Rightarrow> nat option" where
  "find_entry n [] = None"
| "find_entry n (e # es) =
     (if js_strict_eq (number e) n then Some 0 else map_option Suc (find_entry n es))"

text \<open>The three assignments \<open>entry[`a${type}`] = x\<close>, \<open>b\<close>, \<open>c\<close>, in order.\<close>

definition write_cells :: "props \<Rightarrow> fragment \<Rightarrow> props" where
  "write_cells p f =
     p(''a'' @ frag_type f \<mapsto> frag_x f, ''b'' @ frag_type f \<mapsto> frag_y f,
       ''c'' @ frag_type f \<mapsto> frag_z f)"

definition set_cells :: "entry \<Rightarrow> fragment \<Rightarrow> entry" where
  "set_cells e f = e\<lparr>props := write_cells (props e) f\<rparr>"

definition add_fragment :: "entry list \<Rightarrow> fragment \<Rightarrow> entry list" where
  "add_fragment res f =
     (case find_entry (frag_number f) res of
        None \<Rightarrow> res @ [set_cells (new_entry (frag_number f)) f]
      | Some i \<Rightarrow> res[i := set_cells (res ! i) f])"

definition process_line :: "entry list \<Rightarrow> string list \<Rightarrow> js_error + entry list" where
  "process_line res line =
     (case decode_line line of Inl e \<Rightarrow> Inl e | Inr f \<Rightarrow> Inr (add_fragment res f))"

fun aggregate :: "entry list \<Rightarrow> string list list \<Rightarrow> js_error + entry list" where
  "aggregate res [] = Inr res"
| "aggregate res (line # lines) =
     (case process_line res line of Inl e \<Rightarrow> Inl e | Inr res' \<Rightarrow> aggregate res' lines)"

subsection \<open>Abstract specification: a map keyed by identifier\<close>

definition table_of :: "entry list \<Rightarrow> int \<rightharpoonup> props" where
  "table_of res k = map_option (\<lambda>i. props (res ! i)) (find_entry (Num k) res)"

definition spec_step :: "(int \<rightharpoonup> props) \<Rightarrow> fragment \<Rightarrow> (int \<rightharpoonup> props)" where
  "spec_step m f =
     (case frag_number f of
        NaN \<Rightarrow> m
      | Num k \<Rightarrow> m(k \<mapsto> write_cells (case m k of None \<Rightarrow> Map.empty | Some p \<Rightarrow> p) f))"

text \<open>
  The abstract value of one cell: axis \<open>a\<close>, \<open>b\<close>, \<open>c\<close> (x, y, z) of the
  row for identifier \<open>k\<close>.
\<close>

fun axis_val :: "char \<Rightarrow> fragment \<Rightarrow> jsval" where
  "axis_val ax f =
     (if ax = CHR ''a'' then frag_x f else if ax = CHR ''b'' then frag_y f else frag_z f)"

definition cell_of :: "(int \<rightharpoonup> props) \<Rightarrow> int \<Rightarrow> string \<Rightarrow> jsval option" where
  "cell_of m k key = (case m k of None \<Rightarrow> None | Some p \<Rightarrow> p key)"

text \<open>Identifiers other than NaN occur at most once in the array.\<close>

definition ids_ok :: "entry list \<Rightarrow> bool" where
  "ids_ok res \<longleftrightarrow> distinct (filter (\<lambda>n. n \<noteq> NaN) (map number res))"

subsection \<open>Lemmas: find, the invariant, the refinement\<close>

lemma find_entry_Some:
  "find_entry n es = Some i \<Longrightarrow>
     i < length es \<and> js_strict_eq (number (es ! i)) n \<and> (\<forall>j<i. \<not> js_strict_eq (number (es ! j)) n)"
proof (induction es arbitrary: i)
  case (Cons e es)
  show ?case
  proof (cases "js_strict_eq (number e) n")
    case True
    with Cons.prems show ?thesis by simp
  next
    case False
    with Cons.prems obtain i' where i: "i = Suc i'" "find_entry n es = Some i'" by auto
    with Cons.IH False show ?thesis by (auto simp: less_Suc_eq_0_disj)
  qed
qed simp

lemma find_entry_None: "find_entry n es = None \<longleftrightarrow> (\<forall>e\<in>set es. \<not> js_strict_eq (number e) n)"
  by (induction es) auto

lemma find_entry_cong: "map number xs = map number ys \<Longrightarrow> find_entry n xs = find_entry n ys"
proof (induction xs arbitrary: ys)
  case (Cons x xs)
  then show ?case by (cases ys) auto
qed simp

lemma find_entry_snoc_None:
  "find_entry n es = None \<Longrightarrow>
     find_entry n (es @ [e]) = (if js_strict_eq (number e) n then Some (length es) else None)"
  by (induction es) auto

lemma number_set_cells [simp]: "number (set_cells e f) = number e"
  by (simp add: set_cells_def)

lemma map_number_add_fragment:
  "map number (add_fragment res f) =
     (case find_entry (frag_number f) res of
        None \<Rightarrow> map number res @ [frag_number f] | Some i \<Rightarrow> map number res)"
proof (cases "find_entry (frag_number f) res")
  case None
  then show ?thesis by (simp add: add_fragment_def new_entry_def)
next
  case (Some i)
  then have "i < length res" by (blast dest: find_entry_Some)
  with Some show ?thesis by (simp add: add_fragment_def map_list_update_keep)
qed

lemma ids_ok_add_fragment: "ids_ok res \<Longrightarrow> ids_ok (add_fragment res f)"
proof (cases "find_entry (frag_number f) res")
  case None
  assume ok: "ids_ok res"
  from None have "frag_number f \<noteq> NaN \<Longrightarrow> frag_number f \<notin> set (map number res)"
    by (auto simp: find_entry_None js_strict_eq_iff)
  with ok None show ?thesis
    by (auto simp: ids_ok_def map_number_add_fragment)
qed (simp add: ids_ok_def map_number_add_fragment)

lemma write_cells_twice:
  "frag_type f1 = frag_type f2 \<Longrightarrow> write_cells (write_cells p f1) f2 = write_cells p f2"
  unfolding write_cells_def by (simp add: fun_upd_twist)

text \<open>
  C4. Last write wins: a fragment followed by another with the same
  identifier (not NaN) and corner tag leaves the array as the second one
  alone would; the first one's cells are overwritten and no row is added.
\<close>

theorem add_fragment_overwrite:
  assumes eq: "frag_number f1 = frag_number f2" "frag_type f1 = frag_type f2"
    and nan: "frag_number f2 \<noteq> NaN"
  shows "add_fragment (add_fragment res f1) f2 = add_fragment res f2"
proof (cases "find_entry (frag_number f2) res")
  case None
  let ?e = "set_cells (new_entry (frag_number f2)) f1"
  have res1: "add_fragment res f1 = res @ [?e]"
    using None eq by (simp add: add_fragment_def)
  have "js_strict_eq (number ?e) (frag_number f2)"
    using nan by (simp add: new_entry_def js_strict_eq_iff)
  then have "find_entry (frag_number f2) (res @ [?e]) = Some (length res)"
    using None by (simp add: find_entry_snoc_None)
  then have "add_fragment (res @ [?e]) f2 = res @ [set_cells ?e f2]"
    by (simp add: add_fragment_def)
  also have "set_cells ?e f2 = set_cells (new_entry (frag_number f2)) f2"
    using eq by (simp add: set_cells_def write_cells_twice)
  finally show ?thesis using None res1 by (simp add: add_fragment_def)
next
  case (Some i)
  then have i: "i < length res" by (blast dest: find_entry_Some)
  have res1: "add_fragment res f1 = res[i := set_cells (res ! i) f1]"
    using Some eq by (simp add: add_fragment_def)
  have "map number (add_fragment res f1) = map number res"
    using Some eq by (simp add: map_number_add_fragment)
  then have "find_entry (frag_number f2) (add_fragment res f1) = Some i"
    using Some by (metis find_entry_cong)
  then have "add_fragment (add_fragment res f1) f2 = res[i := set_cells (set_cells (res ! i) f1) f2]"
    using res1 i by (simp add: add_fragment_def)
  also have "\<dots> = res[i := set_cells (res ! i) f2]"
    using eq by (simp add: set_cells_def write_cells_twice)
  finally show ?thesis using Some by (simp add: add_fragment_def)
qed

lemma find_entry_append:
  "find_entry n (xs @ ys) =
     (case find_entry n xs of
        None \<Rightarrow> map_option (\<lambda>j. j + length xs) (find_entry n ys) | Some i \<Rightarrow> Some i)"
  by (induction xs) (auto simp: option.map_comp comp_def option.map_ident split: option.splits)

lemma table_of_snoc:
  "table_of (res @ [e]) k =
     (case table_of res k of None \<Rightarrow> (if number e = Num k then Some (props e) else None) | Some p \<Rightarrow> Some p)"
proof (cases "find_entry (Num k) res")
  case None
  then show ?thesis by (simp add: table_of_def find_entry_append js_strict_eq_iff)
next
  case (Some i)
  then have "i < length res" by (blast dest: find_entry_Some)
  with Some show ?thesis by (simp add: table_of_def find_entry_append nth_append)
qed

lemma table_of_update:
  assumes i: "i < length res" and num: "number e = number (res ! i)"
  shows "table_of (res[i := e]) k =
           (if find_entry (Num k) res = Some i then Some (props e) else table_of res k)"
proof -
  have "map number (res[i := e]) = map number res"
    using i num by (simp add: map_list_update_keep)
  then have find: "find_entry (Num k) (res[i := e]) = find_entry (Num k) res"
    by (rule find_entry_cong)
  show ?thesis
  proof (cases "find_entry (Num k) res")
    case (Some j)
    then have "j < length res" by (blast dest: find_entry_Some)
    with Some find i show ?thesis by (auto simp: table_of_def nth_list_update)
  qed (simp add: table_of_def find)
qed

lemma find_entry_NaN [simp]: "find_entry NaN res = None"
  by (simp add: find_entry_None js_strict_eq_iff)

lemma table_of_add_fragment: "table_of (add_fragment res f) = spec_step (table_of res) f"
proof (rule ext)
  fix k
  show "table_of (add_fragment res f) k = spec_step (table_of res) f k"
  proof (cases "frag_number f")
    case NaN
    then show ?thesis
      by (simp add: add_fragment_def spec_step_def table_of_snoc new_entry_def split: option.split)
  next
    case (Num m)
    show ?thesis
    proof (cases "find_entry (Num m) res")
      case None
      then have "table_of res m = None" by (simp add: table_of_def)
      with None Num show ?thesis
        by (auto simp: add_fragment_def spec_step_def table_of_snoc new_entry_def set_cells_def
            split: option.split)
    next
      case (Some i)
      then have i: "i < length res" and hit: "number (res ! i) = Num m"
        by (auto dest!: find_entry_Some simp: js_strict_eq_iff)
      have tab: "table_of res m = Some (props (res ! i))"
        using Some by (simp add: table_of_def)
      have "find_entry (Num k) res = Some i \<longleftrightarrow> k = m"
        using Some hit find_entry_Some[of "Num k" res i] by (auto simp: js_strict_eq_iff)
      with Some Num i tab show ?thesis
        by (simp add: add_fragment_def spec_step_def table_of_update set_cells_def)
    qed
  qed
qed

subsection \<open>Lemmas: the loop\<close>

lemma aggregate_Inr:
  "aggregate res lines = Inr res' \<Longrightarrow>
     \<exists>fs. map decode_line lines = map Inr fs \<and> res' = foldl add_fragment res fs"
proof (induction lines arbitrary: res)
  case Nil
  then show ?case by simp
next
  case (Cons line lines)
  then obtain f res1 where f: "decode_line line = Inr f" and r1: "process_line res line = Inr res1"
    and rest: "aggregate res1 lines = Inr res'"
    by (auto simp: process_line_def split: sum.splits)
  from r1 f have "res1 = add_fragment res f" by (simp add: process_line_def)
  with Cons.IH[OF rest] f show ?case by (metis foldl_Cons list.simps(9))
qed

lemma aggregate_Inl_iff: "(\<exists>e. aggregate res lines = Inl e) \<longleftrightarrow> [] \<in> set lines"
proof (induction lines arbitrary: res)
  case (Cons line lines)
  show ?case
  proof (cases line)
    case Nil
    then show ?thesis by (simp add: process_line_def decode_line_def)
  next
    case (Cons c cs)
    then show ?thesis using Cons.IH by (simp add: process_line_def decode_line_Cons)
  qed
qed simp

lemma ids_ok_foldl_add_fragment: "ids_ok res \<Longrightarrow> ids_ok (foldl add_fragment res fs)"
  by (induction fs arbitrary: res) (simp_all add: ids_ok_add_fragment)

lemma table_of_foldl_add_fragment:
  "table_of (foldl add_fragment res fs) = foldl spec_step (table_of res) fs"
  by (induction fs arbitrary: res) (simp_all add: table_of_add_fragment)

lemma count_NaN_add_fragment:
  "count_list (map number (add_fragment res f)) NaN =
     count_list (map number res) NaN + (if frag_number f = NaN then 1 else 0)"
proof (cases "frag_number f")
  case NaN
  then show ?thesis by (simp add: map_number_add_fragment)
next
  case (Num m)
  then show ?thesis by (simp add: map_number_add_fragment split: option.split)
qed

lemma set_number_add_fragment:
  "number ` set (add_fragment res f) = insert (frag_number f) (number ` set res)"
proof (cases "find_entry (frag_number f) res")
  case None
  then have "map number (add_fragment res f) = map number res @ [frag_number f]"
    by (simp add: map_number_add_fragment)
  then show ?thesis by (metis Un_insert_right empty_set list.simps(15) set_append set_map sup_bot.right_neutral)
next
  case (Some i)
  then have "i < length res" "number (res ! i) = frag_number f"
    by (auto dest!: find_entry_Some simp: js_strict_eq_iff)
  then have "frag_number f \<in> number ` set res" by (metis image_eqI nth_mem)
  moreover have "number ` set (add_fragment res f) = number ` set res"
    using Some by (metis list.set_map map_number_add_fragment option.simps(5))
  ultimately show ?thesis by blast
qed

lemma set_number_foldl:
  "number ` set (foldl add_fragment res fs) = number ` set res \<union> frag_number ` set fs"
  by (induction fs arbitrary: res) (auto simp: set_number_add_fragment)

subsection \<open>Lemmas: single cells\<close>

lemma cell_of_spec_step:
  assumes "ax \<in> {CHR ''a'', CHR ''b'', CHR ''c''}"
  shows "cell_of (spec_step m g) k (ax # t) =
           (if frag_number g = Num k \<and> frag_type g = t then Some (axis_val ax g) else cell_of m k (ax # t))"
  using assms
  by (auto simp: cell_of_def spec_step_def write_cells_def split: jsnum.split option.split)

lemma cell_of_foldl_spec_step:
  assumes "ax \<in> {CHR ''a'', CHR ''b'', CHR ''c''}"
  shows "cell_of (foldl spec_step m fs) k (ax # t) =
           (let gs = filter (\<lambda>f. frag_number f = Num k \<and> frag_type f = t) fs
            in if gs = [] then cell_of m k (ax # t) else Some (axis_val ax (last gs)))"
proof (induction fs rule: rev_induct)
  case Nil
  then show ?case by simp
next
  case (snoc g fs)
  then show ?case
    by (simp add: cell_of_spec_step[OF assms] Let_def)
qed

text \<open>
  C3. Refinement of the loop: whenever the \<open>forEach\<close> loop completes, the
  array it leaves, read as a map, is the abstract map aggregation folded
  over the decoded fragments, starting from the map the array held before.
\<close>

theorem aggregate_refines:
  "aggregate res lines = Inr res' \<Longrightarrow>
     \<exists>fs. map decode_line lines = map Inr fs \<and> table_of res' = foldl spec_step (table_of res) fs"
  by (metis aggregate_Inr table_of_foldl_add_fragment)

subsection \<open>Witnesses\<close>

lemma add_fragment_overwrite_witness:
  "add_fragment (add_fragment []
      \<lparr>frag_number = Num 1, frag_type = ''a'', frag_x = Str ''1'', frag_y = Str ''2'', frag_z = Str ''3''\<rparr>)
      \<lparr>frag_number = Num 1, frag_type = ''a'', frag_x = Str ''7'', frag_y = Str ''8'', frag_z = Undefined\<rparr> =
   [\<lparr>number = Num 1, props = [''aa'' \<mapsto> Str ''7'', ''ba'' \<mapsto> Str ''8'', ''ca'' \<mapsto> Undefined]\<rparr>]"
proof -
  have "add_fragment (add_fragment []
      \<lparr>frag_number = Num 1, frag_type = ''a'', frag_x = Str ''1'', frag_y = Str ''2'', frag_z = Str ''3''\<rparr>)
      \<lparr>frag_number = Num 1, frag_type = ''a'', frag_x = Str ''7'', frag_y = Str ''8'', frag_z = Undefined\<rparr> =
    add_fragment []
      \<lparr>frag_number = Num 1, frag_type = ''a'', frag_x = Str ''7'', frag_y = Str ''8'', frag_z = Undefined\<rparr>"
    by (rule add_fragment_overwrite) simp_all
  then show ?thesis
    by (simp add: add_fragment_def set_cells_def write_cells_def new_entry_def)
qed

lemma aggregate_refines_witness:
  "table_of [\<lparr>number = Num 4, props = [''ab'' \<mapsto> Str ''x'', ''bb'' \<mapsto> Str ''y'', ''cb'' \<mapsto> Str ''z'']\<rparr>] =
     spec_step Map.empty
       \<lparr>frag_number = Num 4, frag_type = ''b'', frag_x = Str ''x'', frag_y = Str ''y'', frag_z = Str ''z''\<rparr>"
proof -
  have run: "aggregate [] [[''4b/x/y/z'']] =
    Inr [\<lparr>number = Num 4, props = [''ab'' \<mapsto> Str ''x'', ''bb'' \<mapsto> Str ''y'', ''cb'' \<mapsto> Str ''z'']\<rparr>]"
    by (simp add: process_line_def decode_line_def add_fragment_def parse_int_def js_space_def
        is_radix_digit_def radix_digit_def digit_value_def digits_value_def slice_last_def
        js_index_def set_cells_def write_cells_def new_entry_def)
  have dec: "decode_line [''4b/x/y/z''] =
    Inr \<lparr>frag_number = Num 4, frag_type = ''b'', frag_x = Str ''x'', frag_y = Str ''y'', frag_z = Str ''z''\<rparr>"
    by (simp add: decode_line_def parse_int_def js_space_def is_radix_digit_def radix_digit_def
        digit_value_def digits_value_def slice_last_def js_index_def)
  have empty: "table_of [] = Map.empty" by (rule ext) (simp add: table_of_def)
  from aggregate_refines[OF run] dec empty show ?thesis by auto
qed

end
