(* ===== verification/Sequencer.thy ===== *)
theory Sequencer
  imports Aggregator
begin

text \<open>
  The row sequencer and the whole of \<open>processFile\<close> (CsvParserExporter.jsx,
  lines 42--69).  \<open>result.sort((a, b) => a.number - b.number)\<close> sorts with a
  comparator whose value is a Number; ECMAScript's SortCompare reads a NaN
  comparison as \<open>+0\<close> (equal), and the engine's sort is stable (ES2019).
  When no number is NaN the comparator is a consistent total preorder and
  every conforming stable sort returns the same array: the stable insertion
  sort below, which is shown equal to the library's \<open>sort_key\<close>.  With a NaN
  number the comparator is inconsistent and ECMAScript leaves the order to
  the engine; the insertion sort is then one admissible order, and only what
  every engine guarantees (the result is a permutation) is claimed of it.
\<close>

definition sort_compare :: "entry \<Rightarrow> entry \<Rightarrow> jsnum" where
  "sort_compare a b = js_sub (number a) (number b)"

text \<open>SortCompare: \<open>a\<close> may stay before \<open>b\<close> when the comparator is not positive.\<close>

definition sort_le :: "entry \<Rightarrow> entry \<Rightarrow> bool" where
  "sort_le a b = (case sort_compare a b of NaN \<Rightarrow> True | Num d \<Rightarrow> d \<le> 0)"

fun insort_entry :: "entry \<Rightarrow> entry list \<Rightarrow> entry list" where
  "insort_entry x [] = [x]"
| "insort_entry x (y # ys) = (if sort_le x y then x # y # ys else y # insort_entry x ys)"

fun sort_entries :: "entry list \<Rightarrow> entry list" where
  "sort_entries [] = []"
| "sort_entries (x # xs) = insort_entry x (sort_entries xs)"

definition process_file :: "string list list \<Rightarrow> js_error + entry list" where
  "process_file data =
     (case aggregate [] data of Inl e \<Rightarrow> Inl e | Inr result \<Rightarrow> Inr (sort_entries result))"

text \<open>The identifier as an integer, for entries whose number is not NaN.\<close>

fun num_key :: "entry \<Rightarrow> int" where
  "num_key e = (case number e of Num i \<Rightarrow> i | NaN \<Rightarrow> 0)"

definition no_nan :: "entry list \<Rightarrow> bool" where
  "no_nan es \<longleftrightarrow> (\<forall>e\<in>set es. number e \<noteq> NaN)"

subsection \<open>Lemmas\<close>

text \<open>The definitions a concrete run of \<open>processFile\<close> unfolds to.\<close>

lemmas process_file_eval =
  process_file_def process_line_def decode_line_def add_fragment_def parse_int_def
  js_space_def is_radix_digit_def radix_digit_def digit_value_def digits_value_def
  slice_last_def js_index_def set_cells_def write_cells_def new_entry_def sort_le_def
  sort_compare_def

lemma mset_insort_entry [simp]: "mset (insort_entry x xs) = add_mset x (mset xs)"
  by (induction xs) auto

lemma mset_sort_entries [simp]: "mset (sort_entries xs) = mset xs"
  by (induction xs) auto

lemma set_sort_entries [simp]: "set (sort_entries xs) = set xs"
  by (metis mset_sort_entries set_mset_mset)

lemma sort_le_key: "number a \<noteq> NaN \<Longrightarrow> number b \<noteq> NaN \<Longrightarrow> sort_le a b \<longleftrightarrow> num_key a \<le> num_key b"
  by (cases "number a"; cases "number b") (simp_all add: sort_le_def sort_compare_def)

lemma insort_entry_key:
  "number x \<noteq> NaN \<Longrightarrow> \<forall>y\<in>set ys. number y \<noteq> NaN \<Longrightarrow> insort_entry x ys = insort_key num_key x ys"
  by (induction ys) (simp_all add: sort_le_key del: num_key.simps)

lemma sorted_sort_entries: "no_nan xs \<Longrightarrow> sorted (map num_key (sort_entries xs))"
proof (induction xs)
  case (Cons x xs)
  then have nn: "no_nan xs" "number x \<noteq> NaN" by (auto simp: no_nan_def)
  have "\<forall>y\<in>set (sort_entries xs). number y \<noteq> NaN"
    using nn(1) by (simp add: no_nan_def)
  then have "insort_entry x (sort_entries xs) = insort_key num_key x (sort_entries xs)"
    using nn(2) by (simp add: insort_entry_key del: num_key.simps)
  with Cons.IH nn(1) show ?case by (simp add: sorted_insort_key del: num_key.simps)
qed simp

lemma ids_ok_mset: "mset xs = mset ys \<Longrightarrow> ids_ok xs \<longleftrightarrow> ids_ok ys"
  unfolding ids_ok_def
  by (rule mset_eq_imp_distinct_iff) (metis mset_filter mset_map)

lemma ids_ok_no_nan_distinct: "no_nan xs \<Longrightarrow> ids_ok xs \<Longrightarrow> distinct (map num_key xs)"
proof -
  assume nn: "no_nan xs" and ok: "ids_ok xs"
  have "filter (\<lambda>n. n \<noteq> NaN) (map number xs) = map number xs"
    using nn by (simp add: no_nan_def filter_id_conv)
  with ok have d: "distinct (map number xs)" by (simp add: ids_ok_def)
  let ?int = "\<lambda>n. case n of Num i \<Rightarrow> i | NaN \<Rightarrow> (0::int)"
  have inj: "inj_on ?int (set (map number xs))"
  proof (rule inj_onI)
    fix a b assume "a \<in> set (map number xs)" "b \<in> set (map number xs)" "?int a = ?int b"
    with nn show "a = b"
      by (cases a; cases b) (auto simp: no_nan_def)
  qed
  have "distinct (map ?int (map number xs))"
    using distinct_map[THEN iffD2, OF conjI[OF d inj]] .
  moreover have "num_key = (\<lambda>x. ?int (number x))"
    by (rule ext) simp
  ultimately show ?thesis by (simp add: comp_def)
qed

lemma table_of_Cons:
  "table_of (x # xs) k = (if number x = Num k then Some (props x) else table_of xs k)"
  by (auto simp: table_of_def js_strict_eq_iff option.map_comp comp_def)

lemma ids_ok_Cons:
  "ids_ok (x # xs) \<longleftrightarrow> ids_ok xs \<and> (number x \<noteq> NaN \<longrightarrow> number x \<notin> set (map number xs))"
  by (cases "number x = NaN") (simp_all add: ids_ok_def conj_commute)

lemma table_of_Some_iff:
  "ids_ok xs \<Longrightarrow> table_of xs k = Some p \<longleftrightarrow> (\<exists>e\<in>set xs. number e = Num k \<and> props e = p)"
proof (induction xs)
  case Nil
  then show ?case by (simp add: table_of_def)
next
  case (Cons x xs)
  then have ok: "ids_ok xs" and fresh: "number x \<noteq> NaN \<Longrightarrow> number x \<notin> set (map number xs)"
    by (simp_all add: ids_ok_Cons)
  show ?case
  proof (cases "number x = Num k")
    case True
    with fresh have "\<forall>e\<in>set xs. number e \<noteq> Num k" by (auto simp: image_iff)
    with True show ?thesis by (auto simp: table_of_Cons)
  next
    case False
    with Cons.IH ok show ?thesis by (auto simp: table_of_Cons)
  qed
qed

lemma table_of_perm:
  assumes ok: "ids_ok xs" and perm: "mset xs = mset ys"
  shows "table_of xs = table_of ys"
proof (rule ext)
  fix k
  have ok': "ids_ok ys" using ok ids_ok_mset[OF perm] by simp
  have set: "set xs = set ys" using perm by (rule mset_eq_setD)
  have H: "table_of xs k = Some p \<longleftrightarrow> table_of ys k = Some p" for p
    unfolding table_of_Some_iff[OF ok] table_of_Some_iff[OF ok'] set ..
  show "table_of xs k = table_of ys k"
  proof (cases "table_of ys k")
    case None
    show ?thesis
    proof (cases "table_of xs k")
      case (Some p)
      with H[of p] None show ?thesis by simp
    qed (simp add: None)
  next
    case (Some q)
    then show ?thesis using H[of q] by simp
  qed
qed

lemma ids_ok_Nil [simp]: "ids_ok []"
  by (simp add: ids_ok_def)

lemma process_file_Inr:
  "process_file data = Inr rows \<Longrightarrow>
     \<exists>fs. map decode_line data = map Inr fs \<and> rows = sort_entries (foldl add_fragment [] fs)"
  by (auto simp: process_file_def dest: aggregate_Inr split: sum.splits)

lemma process_file_rows_ok:
  assumes "process_file data = Inr rows"
  shows "ids_ok rows \<and> (no_nan rows \<longrightarrow> sorted_wrt (<) (map num_key rows))"
proof -
  obtain fs where rows: "rows = sort_entries (foldl add_fragment [] fs)"
    using process_file_Inr[OF assms] by blast
  let ?res = "foldl add_fragment [] fs"
  have ok: "ids_ok ?res" by (simp add: ids_ok_foldl_add_fragment)
  have "mset rows = mset ?res" using rows by simp
  then have okr: "ids_ok rows" using ok ids_ok_mset by blast
  moreover have "sorted_wrt (<) (map num_key rows)" if nnr: "no_nan rows"
  proof -
    have nn: "no_nan ?res" using nnr rows by (simp add: no_nan_def)
    have "distinct (map num_key rows)" using nnr okr by (rule ids_ok_no_nan_distinct)
    moreover have "sorted (map num_key rows)" using rows nn by (simp add: sorted_sort_entries)
    ultimately show ?thesis by (simp add: strict_sorted_iff)
  qed
  ultimately show ?thesis by blast
qed

text \<open>
  C1. When no row's identifier is NaN, the rows \<open>processFile\<close> stores are
  sorted strictly ascending by identifier: one row per identifier, in
  numeric order.
\<close>

lemma process_file_sorted:
  assumes "process_file data = Inr rows" and "no_nan rows"
  shows "sorted_wrt (<) (map num_key rows)"
  using process_file_rows_ok[OF assms(1)] assms(2) by blast

lemma process_file_table:
  assumes "process_file data = Inr rows"
  shows "\<exists>fs. map decode_line data = map Inr fs \<and> table_of rows = foldl spec_step Map.empty fs"
proof -
  obtain fs where fs: "map decode_line data = map Inr fs"
    and rows: "rows = sort_entries (foldl add_fragment [] fs)"
    using process_file_Inr[OF assms] by blast
  have "table_of rows = table_of (foldl add_fragment [] fs)"
    using rows by (metis ids_ok_Nil ids_ok_foldl_add_fragment mset_sort_entries table_of_perm)
  also have "\<dots> = foldl spec_step (table_of []) fs" by (rule table_of_foldl_add_fragment)
  also have "table_of [] = Map.empty" by (rule ext) (simp add: table_of_def)
  finally show ?thesis using fs by blast
qed

text \<open>
  C6. \<open>processFile\<close> throws exactly when some row of the tokenizer's output
  is empty (\<open>line[0]\<close> is undefined); every other input is accepted.
\<close>

lemma process_file_error: "(\<exists>e. process_file data = Inl e) \<longleftrightarrow> [] \<in> set data"
proof -
  have "(\<exists>e. process_file data = Inl e) \<longleftrightarrow> (\<exists>e. aggregate [] data = Inl e)"
    by (auto simp: process_file_def split: sum.splits)
  then show ?thesis by (simp add: aggregate_Inl_iff)
qed

lemma count_NaN_foldl:
  "count_list (map number (foldl add_fragment res fs)) NaN =
     count_list (map number res) NaN + count_list (map frag_number fs) NaN"
  by (induction fs arbitrary: res) (simp_all add: count_NaN_add_fragment)

text \<open>
  C7. Every line whose identifier parses to NaN adds a row of its own:
  \<open>NaN === NaN\<close> is false, so \<open>find\<close> never returns the row an earlier
  NaN line created.  The number of NaN rows equals the number of NaN lines.
\<close>

lemma process_file_nan_rows:
  assumes "process_file data = Inr rows"
  shows "\<exists>fs. map decode_line data = map Inr fs \<and>
           count_list (map number rows) NaN = count_list (map frag_number fs) NaN"
proof -
  obtain fs where fs: "map decode_line data = map Inr fs"
    and rows: "rows = sort_entries (foldl add_fragment [] fs)"
    using process_file_Inr[OF assms] by blast
  have "count_list (map number rows) NaN = count_list (map number (foldl add_fragment [] fs)) NaN"
    using rows by (metis count_mset mset_map mset_sort_entries)
  then show ?thesis using fs by (simp add: count_NaN_foldl)
qed

text \<open>
  C13. Equivalence with the library sort: when no identifier is NaN, the
  stable insertion sort that models \<open>result.sort\<close> with SortCompare is
  the library's stable \<open>sort_key\<close> by identifier.
\<close>

theorem sort_entries_key: "no_nan xs \<Longrightarrow> sort_entries xs = sort_key num_key xs"
proof (induction xs)
  case (Cons x xs)
  then have "no_nan xs" "number x \<noteq> NaN" by (auto simp: no_nan_def)
  moreover have "\<forall>y\<in>set (sort_key num_key xs). number y \<noteq> NaN"
    using \<open>no_nan xs\<close> by (simp add: no_nan_def)
  ultimately show ?case
    using Cons.IH by (simp add: insort_entry_key del: num_key.simps)
qed simp

text \<open>
  C14. The rows \<open>processFile\<close> stores carry exactly the identifiers of the
  decoded lines, each line's identifier being present whatever the order of
  the lines: row membership does not depend on the input order.
\<close>

theorem process_file_ids:
  assumes "process_file data = Inr rows"
  shows "\<exists>fs. map decode_line data = map Inr fs \<and> set (map number rows) = set (map frag_number fs)"
proof -
  obtain fs where fs: "map decode_line data = map Inr fs"
    and rows: "rows = sort_entries (foldl add_fragment [] fs)"
    using process_file_Inr[OF assms] by blast
  then have "set (map number rows) = set (map frag_number fs)"
    by (simp add: set_number_foldl)
  with fs show ?thesis by blast
qed

subsection \<open>Witnesses\<close>

lemma process_file_sorted_witness:
  "process_file [[''9a/1/2/3''], [''2a/4/5/6''], [''9b/7/8/9'']] =
     Inr [\<lparr>number = Num 2, props = [''aa'' \<mapsto> Str ''4'', ''ba'' \<mapsto> Str ''5'', ''ca'' \<mapsto> Str ''6'']\<rparr>,
          \<lparr>number = Num 9, props = [''aa'' \<mapsto> Str ''1'', ''ba'' \<mapsto> Str ''2'', ''ca'' \<mapsto> Str ''3'',
             ''ab'' \<mapsto> Str ''7'', ''bb'' \<mapsto> Str ''8'', ''cb'' \<mapsto> Str ''9'']\<rparr>] \<and>
   sorted_wrt (<) [2, 9::int]"
proof -
  let ?rows = "[\<lparr>number = Num 2, props = [''aa'' \<mapsto> Str ''4'', ''ba'' \<mapsto> Str ''5'', ''ca'' \<mapsto> Str ''6'']\<rparr>,
          \<lparr>number = Num 9, props = [''aa'' \<mapsto> Str ''1'', ''ba'' \<mapsto> Str ''2'', ''ca'' \<mapsto> Str ''3'',
             ''ab'' \<mapsto> Str ''7'', ''bb'' \<mapsto> Str ''8'', ''cb'' \<mapsto> Str ''9'']\<rparr>]"
  have run: "process_file [[''9a/1/2/3''], [''2a/4/5/6''], [''9b/7/8/9'']] = Inr ?rows"
    by (simp add: process_file_eval)
  have nn: "no_nan ?rows" by (simp add: no_nan_def)
  show ?thesis using process_file_sorted[OF run nn] run by simp
qed

lemma process_file_nan_rows_witness:
  "count_list (map number [\<lparr>number = Num 1, props = [''aa'' \<mapsto> Str ''1'', ''ba'' \<mapsto> Str ''2'', ''ca'' \<mapsto> Str ''3'']\<rparr>,
       \<lparr>number = NaN, props = [''a'' \<mapsto> Undefined, ''b'' \<mapsto> Undefined, ''c'' \<mapsto> Undefined]\<rparr>,
       \<lparr>number = NaN, props = [''a'' \<mapsto> Undefined, ''b'' \<mapsto> Undefined, ''c'' \<mapsto> Undefined]\<rparr>]) NaN = 2"
proof -
  let ?rows = "[\<lparr>number = Num 1, props = [''aa'' \<mapsto> Str ''1'', ''ba'' \<mapsto> Str ''2'', ''ca'' \<mapsto> Str ''3'']\<rparr>,
       \<lparr>number = NaN, props = [''a'' \<mapsto> Undefined, ''b'' \<mapsto> Undefined, ''c'' \<mapsto> Undefined]\<rparr>,
       \<lparr>number = NaN, props = [''a'' \<mapsto> Undefined, ''b'' \<mapsto> Undefined, ''c'' \<mapsto> Undefined]\<rparr>]"
  have run: "process_file [[''1a/1/2/3''], [''''], ['''']] = Inr ?rows"
    by (simp add: process_file_eval)
  from process_file_nan_rows[OF run] obtain fs
    where "map decode_line [[''1a/1/2/3''], [''''], ['''']] = map Inr fs"
      and cnt: "count_list (map number ?rows) NaN = count_list (map frag_number fs) NaN"
    by blast
  then have "fs = [projr (decode_line [''1a/1/2/3'']), projr (decode_line ['''']), projr (decode_line [''''])]"
    by (cases fs rule: list.exhaust; auto)
  with cnt show ?thesis by (simp add: process_file_eval)
qed

lemma sort_entries_key_witness:
  "sort_entries [new_entry (Num 9), new_entry (Num 2), new_entry (Num 5)] =
     [new_entry (Num 2), new_entry (Num 5), new_entry (Num 9)]"
proof -
  have "no_nan [new_entry (Num 9), new_entry (Num 2), new_entry (Num 5)]"
    by (simp add: no_nan_def new_entry_def)
  then have "sort_entries [new_entry (Num 9), new_entry (Num 2), new_entry (Num 5)] =
      sort_key num_key [new_entry (Num 9), new_entry (Num 2), new_entry (Num 5)]"
    by (rule sort_entries_key)
  then show ?thesis by (simp add: new_entry_def)
qed

lemma process_file_ids_witness:
  "set (map number [\<lparr>number = Num 2, props = [''aa'' \<mapsto> Str ''4'', ''ba'' \<mapsto> Str ''5'', ''ca'' \<mapsto> Str ''6'']\<rparr>,
          \<lparr>number = Num 9, props = [''aa'' \<mapsto> Str ''1'', ''ba'' \<mapsto> Str ''2'', ''ca'' \<mapsto> Str ''3'',
             ''ab'' \<mapsto> Str ''7'', ''bb'' \<mapsto> Str ''8'', ''cb'' \<mapsto> Str ''9'']\<rparr>]) = {Num 9, Num 2}"
proof -
  let ?rows = "[\<lparr>number = Num 2, props = [''aa'' \<mapsto> Str ''4'', ''ba'' \<mapsto> Str ''5'', ''ca'' \<mapsto> Str ''6'']\<rparr>,
          \<lparr>number = Num 9, props = [''aa'' \<mapsto> Str ''1'', ''ba'' \<mapsto> Str ''2'', ''ca'' \<mapsto> Str ''3'',
             ''ab'' \<mapsto> Str ''7'', ''bb'' \<mapsto> Str ''8'', ''cb'' \<mapsto> Str ''9'']\<rparr>]"
  have run: "process_file [[''9a/1/2/3''], [''2a/4/5/6''], [''9b/7/8/9'']] = Inr ?rows"
    by (simp add: process_file_eval)
  from process_file_ids[OF run] obtain fs
    where fs: "map decode_line [[''9a/1/2/3''], [''2a/4/5/6''], [''9b/7/8/9'']] = map Inr fs"
      and ids: "set (map number ?rows) = set (map frag_number fs)"
    by blast
  from fs have "fs = map (\<lambda>l. projr (decode_line l)) [[''9a/1/2/3''], [''2a/4/5/6''], [''9b/7/8/9'']]"
    by (cases fs rule: list.exhaust; auto)
  with ids show ?thesis by (simp add: process_file_eval insert_commute)
qed

end
