(* ===== verification/Projector.thy ===== *)
theory Projector
  imports Sequencer
begin

text \<open>
  The column projector: the frozen table \<open>COLUMN_NAMES\<close> (CsvParserExporter.jsx,
  lines 8--22) and the two \<open>parsedData.map(item => ({...}))\<close> projections of
  \<open>handleExportCSV\<close> (lines 73--89) and \<open>handleExportXLSX\<close> (lines 98--114).
  A projected row is the object literal with computed keys, kept as the list
  of its properties in insertion order (all 13 labels are distinct, so no
  key is written twice).  A cell holds either the row's Number or a string.
  The encoders that consume these rows (\<open>Papa.unparse\<close>, \<open>XLSX.utils\<close>) are
  libraries and are not modelled.
\<close>

definition COLUMN_NAMES :: "(string \<times> string) list" where
  "COLUMN_NAMES =
     [(''number'', ''ID''),
      (''aa'', ''Top Left x''), (''ba'', ''Top Left y''), (''ca'', ''Top Left z''),
      (''ab'', ''Top Right x''), (''bb'', ''Top Right y''), (''cb'', ''Top Right z''),
      (''ac'', ''Bottom Right x''), (''bc'', ''Bottom Right y''), (''cc'', ''Bottom Right z''),
      (''ad'', ''Bottom Left x''), (''bd'', ''Bottom Left y''), (''cd'', ''Bottom Left z'')]"

text \<open>
  \<open>COLUMN_NAMES.k\<close>: the label of key \<open>k\<close>; a missing key reads
  \<open>undefined\<close>, which a computed key turns into the string "undefined".
\<close>

definition col :: "string \<Rightarrow> string" where
  "col k = (case map_of COLUMN_NAMES k of Some l \<Rightarrow> l | None \<Rightarrow> ''undefined'')"

datatype cell = CNum jsnum | CStr string

text \<open>\<open>item.number ?? ""\<close>: a Number is never null or undefined.\<close>

definition number_or_empty :: "jsnum \<Rightarrow> cell" where
  "number_or_empty n = CNum n"

text \<open>\<open>item.k ?? ""\<close> for a string-valued property.\<close>

definition prop_or_empty :: "entry \<Rightarrow> string \<Rightarrow> cell" where
  "prop_or_empty item k = CStr (nullish (props item k) '''')"

definition csv_item :: "entry \<Rightarrow> (string \<times> cell) list" where
  "csv_item item =
     [(col ''number'', CNum (number item)),
      (col ''aa'', prop_or_empty item ''aa''),
      (col ''ba'', prop_or_empty item ''ba''),
      (col ''ca'', prop_or_empty item ''ca''),
      (col ''ab'', prop_or_empty item ''ab''),
      (col ''bb'', prop_or_empty item ''bb''),
      (col ''cb'', prop_or_empty item ''cb''),
      (col ''ac'', prop_or_empty item ''ac''),
      (col ''bc'', prop_or_empty item ''bc''),
      (col ''cc'', prop_or_empty item ''cc''),
      (col ''ad'', prop_or_empty item ''ad''),
      (col ''bd'', prop_or_empty item ''bd''),
      (col ''cd'', prop_or_empty item ''cd'')]"

definition xlsx_item :: "entry \<Rightarrow> (string \<times> cell) list" where
  "xlsx_item item =
     [(col ''number'', number_or_empty (number item)),
      (col ''aa'', prop_or_empty item ''aa''),
      (col ''ba'', prop_or_empty item ''ba''),
      (col ''ca'', prop_or_empty item ''ca''),
      (col ''ab'', prop_or_empty item ''ab''),
      (col ''bb'', prop_or_empty item ''bb''),
      (col ''cb'', prop_or_empty item ''cb''),
      (col ''ac'', prop_or_empty item ''ac''),
      (col ''bc'', prop_or_empty item ''bc''),
      (col ''cc'', prop_or_empty item ''cc''),
      (col ''ad'', prop_or_empty item ''ad''),
      (col ''bd'', prop_or_empty item ''bd''),
      (col ''cd'', prop_or_empty item ''cd'')]"

definition csv_data :: "entry list \<Rightarrow> (string \<times> cell) list list" where
  "csv_data parsedData = map csv_item parsedData"

definition xlsx_data :: "entry list \<Rightarrow> (string \<times> cell) list list" where
  "xlsx_data parsedData = map xlsx_item parsedData"

text \<open>
  The declarative reading of the table (spec.md 4.4): the identifier, then for
  each key of \<open>COLUMN_NAMES\<close> its label and the row's value or \<open>""\<close>.
\<close>

definition project :: "entry \<Rightarrow> (string \<times> cell) list" where
  "project item =
     (col ''number'', CNum (number item)) #
     map (\<lambda>(k, l). (l, prop_or_empty item k)) (tl COLUMN_NAMES)"

subsection \<open>Lemmas\<close>

text \<open>
  C10. The two exporters build the same rows: \<open>item.number ?? ""\<close> in the
  XLSX projection and \<open>item.number\<close> in the CSV projection agree, since a
  row's number is never null or undefined.
\<close>

lemma xlsx_data_eq_csv_data: "xlsx_data parsedData = csv_data parsedData"
  by (simp add: xlsx_data_def csv_data_def xlsx_item_def csv_item_def number_or_empty_def)

text \<open>
  C11. The hand-written projection is the declarative one: the identifier,
  then for each key of \<open>COLUMN_NAMES\<close> in its order, the label and the
  row's value or the empty string.
\<close>

lemma csv_item_project: "csv_item item = project item"
  by (simp add: csv_item_def project_def col_def COLUMN_NAMES_def)

end
