(* ===== verification/Component.thy ===== *)
theory Component
  imports Projector
begin

text \<open>
  The React component \<open>CsvParserExporter\<close> (CsvParserExporter.jsx,
  lines 25--141) as a state machine.  Its state is the one \<open>useState\<close> hook,
  \<open>parsedData\<close>.  An event is a file selection, whose asynchronous
  \<open>Papa.parse\<close> ends in the \<open>complete\<close> or the \<open>error\<close> callback (the
  tokenizer itself is a library: its outcome is the event's payload), or a
  click on one of the two export buttons.  A step returns the new state and
  the effects the handler performs: a download through \<open>saveAs\<close>, a console
  error, or an exception escaping a callback.  The buttons are rendered
  \<open>disabled={!parsedData.length}\<close>: a click on a disabled button does nothing.
\<close>

record ui_state =
  parsedData :: "entry list"

datatype parse_result = ParseComplete "string list list" | ParseError

datatype event =
    FileChange "parse_result option"
  | ClickExportCSV
  | ClickExportXLSX

datatype blob =
    CsvBlob "(string \<times> cell) list list"
  | XlsxBlob string "(string \<times> cell) list list"

datatype effect = SaveAs blob string | ConsoleError | Uncaught js_error

definition initial_state :: ui_state where
  "initial_state = \<lparr>parsedData = []\<rparr>"

text \<open>
  \<open>handleFileUpload\<close> with its callbacks: no file does nothing; the \<open>error\<close>
  callback logs; the \<open>complete\<close> callback runs \<open>processFile\<close>, whose
  \<open>setParsedData\<close> replaces the table, unless it throws first.
\<close>

definition handle_file_upload :: "ui_state \<Rightarrow> parse_result option \<Rightarrow> ui_state \<times> effect list" where
  "handle_file_upload s r =
     (case r of
        None \<Rightarrow> (s, [])
      | Some ParseError \<Rightarrow> (s, [ConsoleError])
      | Some (ParseComplete data) \<Rightarrow>
          (case process_file data of
             Inl e \<Rightarrow> (s, [Uncaught e])
           | Inr sortedResult \<Rightarrow> (s\<lparr>parsedData := sortedResult\<rparr>, [])))"

definition handle_export_csv :: "ui_state \<Rightarrow> effect list" where
  "handle_export_csv s = [SaveAs (CsvBlob (csv_data (parsedData s))) ''output.csv'']"

definition handle_export_xlsx :: "ui_state \<Rightarrow> effect list" where
  "handle_export_xlsx s = [SaveAs (XlsxBlob ''Sheet1'' (xlsx_data (parsedData s))) ''output.xlsx'']"

fun ui_step :: "ui_state \<Rightarrow> event \<Rightarrow> ui_state \<times> effect list" where
  "ui_step s (FileChange r) = handle_file_upload s r"
| "ui_step s ClickExportCSV = (if parsedData s = [] then (s, []) else (s, handle_export_csv s))"
| "ui_step s ClickExportXLSX = (if parsedData s = [] then (s, []) else (s, handle_export_xlsx s))"

inductive reachable :: "ui_state \<Rightarrow> bool" where
  init: "reachable initial_state"
| step: "reachable s \<Longrightarrow> ui_step s ev = (s', effs) \<Longrightarrow> reachable s'"

text \<open>What every stored table satisfies.\<close>

definition table_ok :: "entry list \<Rightarrow> bool" where
  "table_ok rows \<longleftrightarrow> ids_ok rows \<and> (no_nan rows \<longrightarrow> sorted_wrt (<) (map num_key rows))"

text \<open>
  A run: the events in the order the user and the parser callbacks deliver
  them, each handled to completion before the next (spec.md 5), with the
  effects collected in order.  \<open>upload_result\<close> is the table a file
  change would store, if its parse and \<open>processFile\<close> succeed.
\<close>

fun ui_run :: "ui_state \<Rightarrow> event list \<Rightarrow> ui_state \<times> effect list" where
  "ui_run s [] = (s, [])"
| "ui_run s (ev # evs) =
     (let (s1, effs1) = ui_step s ev; (s2, effs2) = ui_run s1 evs in (s2, effs1 @ effs2))"

fun upload_result :: "event \<Rightarrow> entry list option" where
  "upload_result (FileChange (Some (ParseComplete data))) =
     (case process_file data of Inr rows \<Rightarrow> Some rows | Inl _ \<Rightarrow> None)"
| "upload_result _ = None"

subsection \<open>Lemmas\<close>

lemma table_ok_initial: "table_ok (parsedData initial_state)"
  by (simp add: table_ok_def initial_state_def ids_ok_def no_nan_def)

lemma ui_step_table_ok:
  assumes "table_ok (parsedData s)" "ui_step s ev = (s', effs)"
  shows "table_ok (parsedData s')"
proof (cases ev)
  case (FileChange r)
  show ?thesis
  proof (cases "\<exists>data rows. r = Some (ParseComplete data) \<and> process_file data = Inr rows")
    case True
    then obtain data rows where r: "r = Some (ParseComplete data)" and run: "process_file data = Inr rows"
      by blast
    with assms(2) FileChange have "parsedData s' = rows" by (auto simp: handle_file_upload_def)
    with process_file_rows_ok[OF run] show ?thesis by (simp add: table_ok_def)
  next
    case False
    with assms FileChange have "s' = s"
      by (auto simp: handle_file_upload_def split: option.splits parse_result.splits sum.splits)
    with assms(1) show ?thesis by simp
  qed
qed (use assms in \<open>auto split: if_splits\<close>)

text \<open>
  C5. Invariant: in every state the component can reach, the stored table
  holds each identifier other than NaN at most once, and when it holds no
  NaN identifier it is sorted strictly ascending.
\<close>

theorem reachable_table_ok: "reachable s \<Longrightarrow> table_ok (parsedData s)"
proof (induction rule: reachable.induct)
  case init
  show ?case by (rule table_ok_initial)
next
  case (step s ev s' effs)
  then show ?case by (blast intro: ui_step_table_ok)
qed

text \<open>
  C12. A download happens only from a non-empty table: the export buttons
  are disabled while \<open>parsedData\<close> is empty.
\<close>

theorem ui_step_save_nonempty:
  "ui_step s ev = (s', effs) \<Longrightarrow> SaveAs b name \<in> set effs \<Longrightarrow> parsedData s \<noteq> []"
  by (cases ev) (auto simp: handle_file_upload_def handle_export_csv_def handle_export_xlsx_def
      split: if_splits option.splits parse_result.splits sum.splits)

lemma ui_step_table:
  "parsedData (fst (ui_step s ev)) = (case upload_result ev of None \<Rightarrow> parsedData s | Some rows \<Rightarrow> rows)"
  by (cases ev rule: upload_result.cases)
     (auto simp: handle_file_upload_def split: sum.split)

text \<open>
  C15. After any run of events, the stored table is the result of the last
  file change whose parse and \<open>processFile\<close> succeeded, and the table the
  run started from when there was none: each successful load replaces the
  table whole, and exports, empty selections, tokenizer errors and throwing
  inputs in between leave it as it was.
\<close>

theorem ui_run_table:
  "parsedData (fst (ui_run s evs)) =
     (case List.map_filter upload_result evs of [] \<Rightarrow> parsedData s | rs \<Rightarrow> last rs)"
proof (induction evs arbitrary: s)
  case Nil
  then show ?case by (simp add: map_filter_simps)
next
  case (Cons ev evs)
  obtain s1 effs1 where st: "ui_step s ev = (s1, effs1)" by (cases "ui_step s ev")
  have "parsedData (fst (ui_run s (ev # evs))) = parsedData (fst (ui_run s1 evs))"
    using st by (simp split: prod.split)
  also have "\<dots> = (case List.map_filter upload_result evs of [] \<Rightarrow> parsedData s1 | rs \<Rightarrow> last rs)"
    by (rule Cons.IH)
  also have "parsedData s1 = (case upload_result ev of None \<Rightarrow> parsedData s | Some rows \<Rightarrow> rows)"
    using ui_step_table[of s ev] st by simp
  finally show ?case
    by (cases "upload_result ev"; cases "List.map_filter upload_result evs") (simp_all add: map_filter_simps)
qed

subsection \<open>Witnesses\<close>

lemma reachable_table_ok_witness:
  "reachable \<lparr>parsedData = [\<lparr>number = Num 5, props = [''aa'' \<mapsto> Str ''1'', ''ba'' \<mapsto> Str ''2'', ''ca'' \<mapsto> Str ''3'']\<rparr>]\<rparr> \<and>
   table_ok [\<lparr>number = Num 5, props = [''aa'' \<mapsto> Str ''1'', ''ba'' \<mapsto> Str ''2'', ''ca'' \<mapsto> Str ''3'']\<rparr>]"
proof -
  let ?s = "\<lparr>parsedData = [\<lparr>number = Num 5, props = [''aa'' \<mapsto> Str ''1'', ''ba'' \<mapsto> Str ''2'', ''ca'' \<mapsto> Str ''3'']\<rparr>]\<rparr>"
  have "ui_step initial_state (FileChange (Some (ParseComplete [[''5a/1/2/3'']]))) = (?s, [])"
    by (simp add: handle_file_upload_def process_file_eval)
  then have r: "reachable ?s" by (rule reachable.step[OF reachable.init])
  show ?thesis using reachable_table_ok[OF r] r by simp
qed

lemma ui_step_save_nonempty_witness:
  "parsedData \<lparr>parsedData = [new_entry (Num 1)]\<rparr> \<noteq> []"
proof -
  let ?s = "\<lparr>parsedData = [new_entry (Num 1)]\<rparr>"
  have "ui_step ?s ClickExportCSV = (?s, handle_export_csv ?s)" by simp
  moreover have "SaveAs (CsvBlob (csv_data [new_entry (Num 1)])) ''output.csv'' \<in> set (handle_export_csv ?s)"
    by (simp add: handle_export_csv_def)
  ultimately show ?thesis by (rule ui_step_save_nonempty)
qed

end
