(* ===== verification/Spec2Isabelle.thy ===== *)
theory Spec2Isabelle
  imports Component
begin

text \<open>
  \<^bold>\<open>A verification development of csv-parser\<close>
  (src/src/modules/CsvParserExporter/CsvParserExporter.jsx).

  \<^bold>\<open>The program.\<close>  One React component, \<open>CsvParserExporter\<close>.  A file
  chosen in the page is tokenized by Papa.parse into rows of cells; the
  \<open>complete\<close> callback hands the rows to \<open>processFile\<close>, which decodes each
  row's first cell \<open><id><tag>/x/y/z\<close> into a fragment, gathers the fragments
  by identifier into objects \<open>{number, aa, ba, ca, ab, ...}\<close> (key = axis
  letter a/b/c for x/y/z, then the corner tag), sorts them by identifier and
  stores them in the state hook \<open>parsedData\<close>.  The two export buttons map
  every stored object through the label table \<open>COLUMN_NAMES\<close>, with \<open>""\<close>
  for a missing cell, and hand the rows to Papa.unparse or SheetJS and then
  to \<open>saveAs\<close>.

  \<^bold>\<open>The theories, leaf first.\<close>
  \<^item> \<open>Prelude\<close>: the JavaScript values the code touches (\<open>jsval\<close>: a string
    or undefined; \<open>jsnum\<close>: the Numbers \<open>parseInt\<close> returns, NaN or an
    integer), strict equality \<open>===\<close>, subtraction, out-of-range array reads
    (undefined, not an error) and the read \<open>obj.k ?? d\<close> (\<open>nullish\<close>).
  \<^item> \<open>JsString\<close>: \<open>split('/')\<close> (\<open>split_on\<close>) with its inverse \<open>join_on\<close>,
    \<open>slice(-1)\<close> (\<open>slice_last\<close>), \<open>parseInt\<close> without radix (\<open>parse_int\<close>:
    white space, sign, the \<open>0x\<close> prefix, longest digit run); the
    split/join round-trip lemmas the decoder proofs use and the value of
    \<open>parseInt\<close> on a decimal digit run.
  \<^item> \<open>Decoder\<close>: lines 46--52 as \<open>decode_line\<close>, an empty row being the
    TypeError of \<open>undefined.split\<close>; the spec's decoder \<open>spec_identifier\<close>
    for comparison.  C8 decodes every record of the input grammar; C9 gives
    \<open>parseInt\<close> on every field with a \<open>0x\<close> prefix, where it departs
    from the spec.
  \<^item> \<open>Aggregator\<close>: the array \<open>result\<close> as a list of \<open>entry\<close> records; \<open>find\<close>
    (\<open>find_entry\<close>, first index whose number is \<open>===\<close>), the push of a new
    entry and the three property writes through the alias (\<open>add_fragment\<close>),
    one loop step (\<open>process_line\<close>) and the loop (\<open>aggregate\<close>).  The
    abstract specification is a map from identifier to properties
    (\<open>spec_step\<close>); \<open>table_of\<close> reads the array as that map.  The invariant
    \<open>ids_ok\<close> (no identifier other than NaN twice) is kept by every step;
    C3 is the refinement of the loop, C4 the overwrite law.
  \<^item> \<open>Sequencer\<close>: the comparator \<open>a.number - b.number\<close> read through
    SortCompare (NaN counts as equal), the stable insertion sort
    \<open>sort_entries\<close>, and \<open>process_file\<close>, lines 42--69 without the state
    update.  The sort equals \<open>sort_key\<close> when no identifier is NaN (C13).
    C1, C6, C7 and C14 are the behaviour of \<open>processFile\<close>: sorted strict
    output, its one error, one row per NaN line, and the identifiers it
    keeps; \<open>process_file_table\<close> gives the map it denotes.
  \<^item> \<open>Projector\<close>: \<open>COLUMN_NAMES\<close> and the projections \<open>csv_item\<close> and
    \<open>xlsx_item\<close> of lines 73--89 and 98--114, written field by field as the
    source does; C10 and C11 relate them to each other and to the
    declarative reading of the table.
  \<^item> \<open>Component\<close>: the component as a step function \<open>ui_step\<close> on the state
    \<open>parsedData\<close> over the events file change (with the tokenizer's outcome),
    CSV click and XLSX click, returning the effects (downloads, console
    error, escaped exception), its runs over event sequences (\<open>ui_run\<close>)
    and its reachable states.  C5 is the invariant of every reachable
    state, C12 the guard on downloads, C15 the table after any run (the last
    successful load, whatever exports and failures came between).
  \<^item> This theory: the property that spans the decoder, aggregator, sorter
    and projector: C2, the cell law of spec.md 8 (last write wins, a corner
    supplied once shows its values, a corner never supplied is empty).

  \<^bold>\<open>Choices.\<close>  Every loop of the source is a list traversal, so every
  definition is structural recursion: no fuel and no \<open>partial_function\<close> is
  needed, and every function is total and executable.  Identifiers are
  unbounded \<open>int\<close>: JavaScript's double loses integers past \<open>2^53\<close>, which
  the model does not reproduce.  Characters are 8-bit, JavaScript's are UTF-16
  code units; white space is the ASCII part of ECMAScript's class.  Where the
  comparator is inconsistent (a NaN identifier) ECMAScript leaves the order
  to the engine; the model fixes the stable insertion sort, and claims about
  that case state only what every engine guarantees (a permutation, the
  NaN-row count).

  \<^bold>\<open>Not modelled.\<close>  Papa.parse (the tokenizer: its result is an input of
  the model), Papa.unparse and SheetJS (the encoders: the model stops at the
  rows handed to them), \<open>saveAs\<close> and \<open>Blob\<close> (an effect value), the JSX
  markup beyond the two \<open>disabled\<close> guards, and style.css.
\<close>

subsection \<open>The cell law\<close>

lemma process_file_table_of_row:
  assumes run: "process_file data = Inr rows" and row: "row \<in> set rows" "number row = Num k"
  shows "table_of rows k = Some (props row)"
  using process_file_rows_ok[OF run] row table_of_Some_iff by blast

text \<open>
  C2. For a stored row with identifier \<open>k\<close> and a corner tag \<open>t\<close>, the
  projected x, y or z cell is the value carried by the last fragment with
  identifier \<open>k\<close> and tag \<open>t\<close> (verbatim, with undefined shown as \<open>""\<close>),
  and \<open>""\<close> when no fragment supplied that corner: last write wins, and a
  corner supplied once shows that fragment's value.
\<close>

theorem process_file_cell:
  assumes run: "process_file data = Inr rows" and row: "row \<in> set rows" "number row = Num k"
    and ax: "ax \<in> {CHR ''a'', CHR ''b'', CHR ''c''}"
  shows "\<exists>fs. map decode_line data = map Inr fs \<and>
           prop_or_empty row (ax # t) =
             CStr (let gs = filter (\<lambda>f. frag_number f = Num k \<and> frag_type f = t) fs
                   in if gs = [] then '''' else nullish (Some (axis_val ax (last gs))) '''')"
proof -
  obtain fs where fs: "map decode_line data = map Inr fs"
    and tab: "table_of rows = foldl spec_step Map.empty fs"
    using process_file_table[OF run] by blast
  have "props row (ax # t) = cell_of (table_of rows) k (ax # t)"
    using process_file_table_of_row[OF run row] by (simp add: cell_of_def)
  also have "\<dots> = (let gs = filter (\<lambda>f. frag_number f = Num k \<and> frag_type f = t) fs
                   in if gs = [] then None else Some (axis_val ax (last gs)))"
    unfolding tab cell_of_foldl_spec_step[OF ax] by (simp add: cell_of_def Let_def)
  finally show ?thesis
    using fs by (auto simp: prop_or_empty_def Let_def)
qed


subsection \<open>Witnesses\<close>

lemma process_file_cell_witness:
  "prop_or_empty \<lparr>number = Num 1, props = [''aa'' \<mapsto> Str ''7'', ''ba'' \<mapsto> Str ''8'', ''ca'' \<mapsto> Str ''9'']\<rparr> ''aa'' = CStr ''7''"
proof -
  let ?row = "\<lparr>number = Num 1, props = [''aa'' \<mapsto> Str ''7'', ''ba'' \<mapsto> Str ''8'', ''ca'' \<mapsto> Str ''9'']\<rparr>"
  have run: "process_file [[''1a/1/2/3''], [''1a/7/8/9'']] = Inr [?row]"
    by (simp add: process_file_eval)
  have "?row \<in> set [?row]" "number ?row = Num 1" "CHR ''a'' \<in> {CHR ''a'', CHR ''b'', CHR ''c''}"
    by simp_all
  from process_file_cell[OF run this, of "''a''"] obtain fs
    where fs: "map decode_line [[''1a/1/2/3''], [''1a/7/8/9'']] = map Inr fs"
      and cell: "prop_or_empty ?row (CHR ''a'' # ''a'') =
             CStr (let gs = filter (\<lambda>f. frag_number f = Num 1 \<and> frag_type f = ''a'') fs
                   in if gs = [] then '''' else nullish (Some (axis_val (CHR ''a'') (last gs))) '''')"
    by blast
  from fs have "fs = [projr (decode_line [''1a/1/2/3'']), projr (decode_line [''1a/7/8/9''])]"
    by (cases fs rule: list.exhaust; auto)
  with cell show ?thesis by (simp add: process_file_eval)
qed

end
